theory Spec2Isabelle
  imports Main
begin

section \<open>Storage: the tables of \<^verbatim>\<open>DatabaseManager.init_database\<close>\<close>

text \<open>
  The SQLite file is a record of its tables, each table a list of rows in rowid order.
  Timestamps are the values of \<^verbatim>\<open>CURRENT_TIMESTAMP\<close>; SQLite compares the fixed-width
  text \<^verbatim>\<open>YYYY-MM-DD HH:MM:SS\<close>, which orders as the instants do, so a timestamp is
  the number of the second. Ids are \<^verbatim>\<open>INTEGER PRIMARY KEY\<close> columns and the
  \<^verbatim>\<open>subscriber_id: int\<close>, \<^verbatim>\<open>article_id: int\<close>, \<^verbatim>\<open>campaign_id: int\<close>
  parameters of the manager: integers, never NULL.
\<close>

type_synonym timestamp = nat

record subscriber_row =
  sub_id :: int
  sub_email :: string
  sub_issue_area_1 :: string
  sub_issue_area_2 :: string
  sub_issue_area_3 :: string
  sub_active :: bool

text \<open>Table \<^verbatim>\<open>articles\<close>; the fields carry the alias \<^verbatim>\<open>a\<close> of the fresh query.\<close>

record article_row =
  a_id :: int
  a_url_hash :: string
  a_title :: string
  a_url :: string
  a_outlet :: string
  a_issue_area :: string
  a_scraped_at :: timestamp
  a_excluded :: bool

text \<open>
  Table \<^verbatim>\<open>article_sends\<close>, alias \<^verbatim>\<open>s\<close>. The column \<^verbatim>\<open>sent_at\<close> is filled by
  SQLite's clock and read by none of the statements below; it is left out.
\<close>

record send_row =
  s_id :: int
  s_subscriber_id :: int
  s_article_id :: int
  s_campaign_id :: int

text \<open>
  \<^verbatim>\<open>articles_seq\<close> and \<^verbatim>\<open>article_sends_seq\<close> are the \<^verbatim>\<open>sqlite_sequence\<close> entries that
  \<^verbatim>\<open>AUTOINCREMENT\<close> keeps: the largest rowid ever given out in the table.
\<close>

record database =
  subscribers :: "subscriber_row list"
  articles :: "article_row list"
  articles_seq :: int
  article_sends :: "send_row list"
  article_sends_seq :: int
  admin_settings :: "(string \<times> string) list"


definition default_settings :: "(string \<times> string) list" where
  "default_settings =
     [(''email_schedule_day'', ''1''),
      (''email_schedule_hour'', ''9''),
      (''email_schedule_minute'', ''0''),
      (''fallback_enabled'', ''1''),
      (''min_articles_per_category'', ''1'')]"



definition get_setting :: "database \<Rightarrow> string \<Rightarrow> string option \<Rightarrow> string option" where
  "get_setting db key dflt =
     (case find (\<lambda>r. fst r = key) (admin_settings db) of
        Some row \<Rightarrow> Some (snd row)
      | None \<Rightarrow> dflt)"

text \<open>\<^verbatim>\<open>INSERT OR REPLACE\<close>: the row of the key is deleted and the new one inserted.\<close>

definition set_setting :: "database \<Rightarrow> string \<Rightarrow> string \<Rightarrow> database" where
  "set_setting db key val =
     db\<lparr>admin_settings := filter (\<lambda>r. fst r \<noteq> key) (admin_settings db) @ [(key, val)]\<rparr>"

text \<open>The rowid \<^verbatim>\<open>AUTOINCREMENT\<close> gives a new row: one more than every rowid so far.\<close>

definition next_rowid :: "int \<Rightarrow> int list \<Rightarrow> int" where
  "next_rowid seq ids = fold max ids seq + 1"

subsection \<open>\<^verbatim>\<open>add_article\<close>\<close>



subsection \<open>\<^verbatim>\<open>record_article_send\<close>\<close>

text \<open>
  \<^verbatim>\<open>INSERT OR IGNORE INTO article_sends\<close> under \<^verbatim>\<open>UNIQUE(subscriber_id, article_id)\<close>.
  No \<^verbatim>\<open>PRAGMA foreign_keys\<close> is ever issued, so SQLite does not check the
  \<^verbatim>\<open>FOREIGN KEY\<close> clauses; the function returns nothing and its handler prints what
  it catches.
\<close>

definition record_article_send :: "database \<Rightarrow> int \<Rightarrow> int \<Rightarrow> int \<Rightarrow> database" where
  "record_article_send db subscriber_id article_id campaign_id =
     (if list_ex (\<lambda>s. s_subscriber_id s = subscriber_id \<and> s_article_id s = article_id)
           (article_sends db)
      then db
      else
        (let rowid = next_rowid (article_sends_seq db) (map s_id (article_sends db)) in
         db\<lparr>article_sends := article_sends db @
               [\<lparr>s_id = rowid, s_subscriber_id = subscriber_id, s_article_id = article_id,
                 s_campaign_id = campaign_id\<rparr>],
            article_sends_seq := rowid\<rparr>))"

subsection \<open>\<^verbatim>\<open>get_fresh_articles_for_subscriber\<close>\<close>

text \<open>
  \<^verbatim>\<open>articles a LEFT JOIN article_sends s ON a.id = s.article_id AND s.subscriber_id = ?\<close>:
  an article with no matching send row is kept once, with the \<^verbatim>\<open>s\<close> columns NULL.
\<close>

definition left_join_sends :: "database \<Rightarrow> int \<Rightarrow> (article_row \<times> send_row option) list" where
  "left_join_sends db subscriber_id =
     concat (map (\<lambda>a.
        (case filter (\<lambda>s. a_id a = s_article_id s \<and> s_subscriber_id s = subscriber_id)
                (article_sends db) of
           [] \<Rightarrow> [(a, None)]
         | ms \<Rightarrow> map (\<lambda>s. (a, Some s)) ms)) (articles db))"

text \<open>
  \<^verbatim>\<open>ORDER BY a.scraped_at DESC\<close>. SQL leaves the order of rows with equal keys to the
  engine; the sort here is stable, so ties stay in rowid order.
\<close>

fun insert_desc ::
    "(article_row \<times> send_row option) \<Rightarrow> (article_row \<times> send_row option) list \<Rightarrow>
     (article_row \<times> send_row option) list" where
  "insert_desc x [] = [x]"
| "insert_desc x (y # ys) =
     (if a_scraped_at (fst y) \<le> a_scraped_at (fst x) then x # y # ys
      else y # insert_desc x ys)"

definition order_by_scraped_at_desc ::
    "(article_row \<times> send_row option) list \<Rightarrow> (article_row \<times> send_row option) list" where
  "order_by_scraped_at_desc rows = foldr insert_desc rows []"

text \<open>The dictionary built from each fetched row.\<close>

record article_data =
  data_id :: int
  data_title :: string
  data_url :: string
  data_outlet :: string
  data_issue_area :: string
  data_scraped_at :: timestamp

definition row_dict :: "article_row \<times> send_row option \<Rightarrow> article_data" where
  "row_dict r =
     \<lparr>data_id = a_id (fst r), data_title = a_title (fst r), data_url = a_url (fst r),
      data_outlet = a_outlet (fst r), data_issue_area = a_issue_area (fst r),
      data_scraped_at = a_scraped_at (fst r)\<rparr>"

text \<open>
  The \<^verbatim>\<open>SELECT\<close> of one issue area: \<^verbatim>\<open>WHERE a.issue_area = ? AND a.excluded = 0 AND
  s.id IS NULL ORDER BY a.scraped_at DESC LIMIT 10\<close>.
\<close>

definition fresh_rows :: "database \<Rightarrow> int \<Rightarrow> string \<Rightarrow> article_data list" where
  "fresh_rows db subscriber_id issue_area =
     map row_dict
       (take 10
          (order_by_scraped_at_desc
             (filter (\<lambda>r. a_issue_area (fst r) = issue_area \<and> \<not> a_excluded (fst r) \<and>
                           (case snd r of None \<Rightarrow> True | Some s \<Rightarrow> False))
                (left_join_sends db subscriber_id))))"

definition get_fresh_articles_for_subscriber ::
    "database \<Rightarrow> int \<Rightarrow> string list \<Rightarrow> (string \<rightharpoonup> article_data list)" where
  "get_fresh_articles_for_subscriber db subscriber_id issue_areas =
     foldl (\<lambda>articles_by_category issue_area.
              articles_by_category(issue_area \<mapsto> fresh_rows db subscriber_id issue_area))
       Map.empty issue_areas"

section \<open>Selection: \<^verbatim>\<open>models/article.py\<close>\<close>

text \<open>
  The dataclasses. \<^verbatim>\<open>Subscriber.id\<close> is the id of the stored row the object was read
  from; \<^verbatim>\<open>created_at\<close> and \<^verbatim>\<open>updated_at\<close> are not read by the selection.
\<close>

record Article =
  title :: string
  url :: string
  outlet :: string
  issue_area :: string
  Article_id :: "int option"
  scraped_at :: "timestamp option"
  excluded :: bool

record Subscriber =
  email :: string
  issue_area_1 :: string
  issue_area_2 :: string
  issue_area_3 :: string
  active :: bool
  Subscriber_id :: int

definition issue_areas :: "Subscriber \<Rightarrow> string list" where
  "issue_areas subscriber =
     [issue_area_1 subscriber, issue_area_2 subscriber, issue_area_3 subscriber]"

text \<open>
  \<^verbatim>\<open>Article.from_dict\<close> on a dictionary of the fresh query: the keys \<^verbatim>\<open>id\<close> and
  \<^verbatim>\<open>scraped_at\<close> are present, \<^verbatim>\<open>excluded\<close> is not and takes its default.
\<close>

definition from_dict :: "article_data \<Rightarrow> Article" where
  "from_dict d =
     \<lparr>title = data_title d, url = data_url d, outlet = data_outlet d,
      issue_area = data_issue_area d, Article_id = Some (data_id d),
      scraped_at = Some (data_scraped_at d), excluded = False\<rparr>"

text \<open>Python's \<^verbatim>\<open>xs[:n]\<close>: a negative bound counts from the end.\<close>

definition slice_to :: "'a list \<Rightarrow> int \<Rightarrow> 'a list" where
  "slice_to xs n =
     (if n < 0 then take (nat (int (length xs) + n)) xs else take (nat n) xs)"

text \<open>\<^verbatim>\<open>d.get(key, [])\<close>.\<close>

definition get_or_empty :: "('k \<rightharpoonup> 'v list) \<Rightarrow> 'k \<Rightarrow> 'v list" where
  "get_or_empty d key = (case d key of None \<Rightarrow> [] | Some v \<Rightarrow> v)"

definition FALLBACK_MAPPING :: "(string \<times> string list) list" where
  "FALLBACK_MAPPING =
     [(''Health'', [''Mental Health'', ''Community Development'']),
      (''Mental Health'', [''Health'', ''Social Services'']),
      (''Housing'', [''Economic Development'', ''Community Development'']),
      (''Environment'', [''Energy'', ''Agriculture'', ''Public Safety'']),
      (''Criminal Justice'', [''Public Safety'', ''Community Development'', ''Mental Health'']),
      (''Economic Development'', [''Housing'', ''Workforce Development'', ''Community Development'']),
      (''Democracy & Governance'', [''Public Safety'', ''Community Development'']),
      (''Immigration'', [''Social Services'', ''Community Development'']),
      (''Transportation'', [''Infrastructure'', ''Public Safety'', ''Environment'']),
      (''Food Security'', [''Agriculture'', ''Community Development'', ''Health'']),
      (''Community Development'', [''Social Services'', ''Economic Development'']),
      (''Technology'', [''Education'', ''Infrastructure'']),
      (''Energy'', [''Environment'', ''Infrastructure'']),
      (''Agriculture'', [''Food Security'', ''Environment'', ''Economic Development'']),
      (''Social Services'', [''Community Development'', ''Mental Health'']),
      (''Arts & Culture'', [''Community Development'', ''Education'']),
      (''Youth Development'', [''Education'', ''Community Development'']),
      (''Senior Services'', [''Health'', ''Social Services'']),
      (''Public Safety'', [''Criminal Justice'', ''Community Development'']),
      (''Infrastructure'', [''Transportation'', ''Economic Development'']),
      (''Workforce Development'', [''Economic Development'', ''Education''])]"

definition get_fallback_categories :: "string \<Rightarrow> int \<Rightarrow> string list" where
  "get_fallback_categories primary_category max_fallbacks =
     slice_to (get_or_empty (map_of FALLBACK_MAPPING) primary_category) max_fallbacks"

text \<open>Both callers leave \<^verbatim>\<open>max_fallbacks\<close> at its default, 3.\<close>

definition get_all_related_categories :: "string \<Rightarrow> string list" where
  "get_all_related_categories primary_category =
     primary_category # get_fallback_categories primary_category 3"

text \<open>
  The loop over the fallback categories of \<^verbatim>\<open>_get_articles_with_fallback\<close>, with its
  \<^verbatim>\<open>break\<close>.
\<close>

fun fallback_loop ::
    "(string \<rightharpoonup> article_data list) \<Rightarrow> int \<Rightarrow> string list \<Rightarrow> Article list \<Rightarrow> Article list" where
  "fallback_loop articles_by_category needed_count [] selected_articles = selected_articles"
| "fallback_loop articles_by_category needed_count (fallback_category # rest) selected_articles =
     (if int (length selected_articles) \<ge> needed_count then selected_articles
      else
        (let fallback_articles = get_or_empty articles_by_category fallback_category;
             remaining_needed = needed_count - int (length selected_articles)
         in fallback_loop articles_by_category needed_count rest
              (selected_articles @ map from_dict (slice_to fallback_articles remaining_needed))))"

definition get_articles_with_fallback :: "database \<Rightarrow> int \<Rightarrow> string \<Rightarrow> int \<Rightarrow> Article list" where
  "get_articles_with_fallback db subscriber_id primary_category needed_count =
     (let all_categories = get_all_related_categories primary_category;
          articles_by_category = get_fresh_articles_for_subscriber db subscriber_id all_categories;
          primary_articles = get_or_empty articles_by_category primary_category;
          selected_articles = map from_dict (slice_to primary_articles needed_count)
      in if int (length selected_articles) < needed_count
         then fallback_loop articles_by_category needed_count
                (get_fallback_categories primary_category 3) selected_articles
         else selected_articles)"

text \<open>
  The selector object: its one mutable attribute, absent (\<open>None\<close>) until the first
  selection. The database handle is passed to each call.
\<close>

record ArticleSelector =
  last_fallback_usage :: "(string \<rightharpoonup> bool) option"

type_synonym selection = "(string \<rightharpoonup> Article list) \<times> (string \<rightharpoonup> bool)"

text \<open>One round of the loop over \<^verbatim>\<open>subscriber.issue_areas\<close>.\<close>

definition select_step :: "database \<Rightarrow> int \<Rightarrow> int \<Rightarrow> selection \<Rightarrow> string \<Rightarrow> selection" where
  "select_step db sid articles_per_category st area =
     (let articles = get_articles_with_fallback db sid area articles_per_category in
      if articles \<noteq> [] then
        (let primary_articles = filter (\<lambda>a. issue_area a = area) articles in
         ((fst st)(area \<mapsto> articles),
          if length primary_articles < length articles then (snd st)(area \<mapsto> True) else snd st))
      else ((fst st)(area \<mapsto> []), (snd st)(area \<mapsto> True)))"

definition select_articles_for_subscriber ::
    "ArticleSelector \<Rightarrow> database \<Rightarrow> Subscriber \<Rightarrow> int \<Rightarrow>
     (string \<rightharpoonup> Article list) \<times> ArticleSelector" where
  "select_articles_for_subscriber self db subscriber articles_per_category =
     (let st = foldl (select_step db (Subscriber_id subscriber) articles_per_category)
                 (Map.empty, Map.empty) (issue_areas subscriber)
      in (fst st, self\<lparr>last_fallback_usage := Some (snd st)\<rparr>))"

definition was_fallback_used :: "ArticleSelector \<Rightarrow> string \<Rightarrow> bool" where
  "was_fallback_used self area =
     (case last_fallback_usage self of
        None \<Rightarrow> False
      | Some usage \<Rightarrow> (case usage area of None \<Rightarrow> False | Some b \<Rightarrow> b))"

text \<open>\<^verbatim>\<open>ArticleSelector.__init__\<close> leaves \<^verbatim>\<open>last_fallback_usage\<close> unset.\<close>

definition ArticleSelector_init :: ArticleSelector where
  "ArticleSelector_init = \<lparr>last_fallback_usage = None\<rparr>"

section \<open>Notions of the specification\<close>

text \<open>The uniqueness key of the send ledger: a send row for the pair exists.\<close>

definition has_send_record :: "database \<Rightarrow> int \<Rightarrow> int \<Rightarrow> bool" where
  "has_send_record db sid aid =
     list_ex (\<lambda>s. s_subscriber_id s = sid \<and> s_article_id s = aid) (article_sends db)"

text \<open>
  The candidate sequence of the specification for a topic: the topic's own fresh list,
  then the fresh lists of its fallback topics in their listed order. A fresh list is
  what the store's query returns for the topic.
\<close>

definition fresh_then_fallbacks :: "database \<Rightarrow> int \<Rightarrow> string \<Rightarrow> Article list" where
  "fresh_then_fallbacks db sid T =
     map from_dict (fresh_rows db sid T) @
     concat (map (\<lambda>c. map from_dict (fresh_rows db sid c)) (get_fallback_categories T 3))"

text \<open>The two conditions under which the selection loop sets the flag of a topic.\<close>

definition fallback_noted :: "string \<Rightarrow> Article list \<Rightarrow> bool" where
  "fallback_noted area as =
     (as = [] \<or> length (filter (\<lambda>a. issue_area a = area) as) < length as)"

text \<open>Every article of a selection, topic by topic, and the recording of each of them.\<close>

definition selected_of :: "(string \<rightharpoonup> Article list) \<Rightarrow> Subscriber \<Rightarrow> Article list" where
  "selected_of selected subscriber = concat (map (get_or_empty selected) (issue_areas subscriber))"

definition record_each :: "database \<Rightarrow> int \<Rightarrow> Article list \<Rightarrow> int \<Rightarrow> database" where
  "record_each db sid as campaign_id =
     foldl (\<lambda>d a. case Article_id a of
                     Some i \<Rightarrow> record_article_send d sid i campaign_id
                   | None \<Rightarrow> d) db as"

definition ids_of :: "Article list \<Rightarrow> int option set" where
  "ids_of as = Article_id ` set as"




section \<open>Example stores\<close>

text \<open>
  A stand-in for the digest in the examples, and the scenario of the specification:
  a subscriber of Health, Housing and Education; three fresh Health articles, two of
  Economic Development, one of Education; of the two Housing articles one is excluded
  and the other was sent to the subscriber in campaign 1.
\<close>

definition digest :: "string \<Rightarrow> string" where
  "digest u = ''md5:'' @ u"

definition mk_article :: "int \<Rightarrow> string \<Rightarrow> string \<Rightarrow> timestamp \<Rightarrow> bool \<Rightarrow> article_row" where
  "mk_article i t area at ex =
     \<lparr>a_id = i, a_url_hash = digest (''https://example.org/'' @ t), a_title = t,
      a_url = ''https://example.org/'' @ t, a_outlet = ''Outlet'',
      a_issue_area = area, a_scraped_at = at, a_excluded = ex\<rparr>"

definition scenario_db :: database where
  "scenario_db =
     \<lparr>subscribers =
        [\<lparr>sub_id = 1, sub_email = ''reader@example.org'', sub_issue_area_1 = ''Health'',
          sub_issue_area_2 = ''Housing'', sub_issue_area_3 = ''Education'', sub_active = True\<rparr>],
      articles =
        [mk_article 1 ''H3'' ''Health'' 10 False,
         mk_article 2 ''H2'' ''Health'' 20 False,
         mk_article 3 ''H1'' ''Health'' 30 False,
         mk_article 4 ''D2'' ''Economic Development'' 15 False,
         mk_article 5 ''D1'' ''Economic Development'' 25 False,
         mk_article 6 ''E1'' ''Education'' 5 False,
         mk_article 7 ''X1'' ''Housing'' 40 True,
         mk_article 8 ''S1'' ''Housing'' 35 False],
      articles_seq = 8,
      article_sends =
        [\<lparr>s_id = 1, s_subscriber_id = 1, s_article_id = 8, s_campaign_id = 1\<rparr>],
      article_sends_seq = 1,
      admin_settings = default_settings\<rparr>"

definition scenario_subscriber :: Subscriber where
  "scenario_subscriber =
     \<lparr>email = ''reader@example.org'', issue_area_1 = ''Health'', issue_area_2 = ''Housing'',
      issue_area_3 = ''Education'', active = True, Subscriber_id = 1\<rparr>"

text \<open>A store with one Mental Health article and a subscriber of Health and Mental Health.\<close>

definition overlap_db :: database where
  "overlap_db =
     \<lparr>subscribers =
        [\<lparr>sub_id = 1, sub_email = ''reader@example.org'', sub_issue_area_1 = ''Health'',
          sub_issue_area_2 = ''Mental Health'', sub_issue_area_3 = ''Housing'',
          sub_active = True\<rparr>],
      articles = [mk_article 1 ''M1'' ''Mental Health'' 10 False],
      articles_seq = 1,
      article_sends = [], article_sends_seq = 0,
      admin_settings = default_settings\<rparr>"

definition overlap_subscriber :: Subscriber where
  "overlap_subscriber =
     \<lparr>email = ''reader@example.org'', issue_area_1 = ''Health'',
      issue_area_2 = ''Mental Health'', issue_area_3 = ''Housing'', active = True,
      Subscriber_id = 1\<rparr>"


text \<open>The scenario's store after the administrator has switched the fallback setting off.\<close>

definition fallback_off_db :: database where
  "fallback_off_db = set_setting scenario_db ''fallback_enabled'' ''0''"



section \<open>The store's query\<close>

lemma foldl_upd_lookup:
  "foldl (\<lambda>m k. m(k \<mapsto> f k)) m0 ks k = (if k \<in> set ks then Some (f k) else m0 k)"
  by (induction ks arbitrary: m0) auto

lemma get_fresh_lookup:
  "get_fresh_articles_for_subscriber db sid cats c =
     (if c \<in> set cats then Some (fresh_rows db sid c) else None)"
  unfolding get_fresh_articles_for_subscriber_def by (simp add: foldl_upd_lookup)

lemma get_or_empty_fresh:
  "get_or_empty (get_fresh_articles_for_subscriber db sid cats) c =
     (if c \<in> set cats then fresh_rows db sid c else [])"
  by (simp add: get_or_empty_def get_fresh_lookup)

lemma set_insert_desc: "set (insert_desc x ys) = insert x (set ys)"
  by (induction ys) auto

lemma set_order_by: "set (order_by_scraped_at_desc rows) = set rows"
  unfolding order_by_scraped_at_desc_def by (induction rows) (simp_all add: set_insert_desc)

lemma sorted_insert_desc:
  "sorted_wrt (\<lambda>x y. a_scraped_at (fst y) \<le> a_scraped_at (fst x)) ys \<Longrightarrow>
   sorted_wrt (\<lambda>x y. a_scraped_at (fst y) \<le> a_scraped_at (fst x)) (insert_desc x ys)"
  by (induction ys) (auto simp: set_insert_desc)

lemma sorted_order_by:
  "sorted_wrt (\<lambda>x y. a_scraped_at (fst y) \<le> a_scraped_at (fst x))
     (order_by_scraped_at_desc rows)"
  unfolding order_by_scraped_at_desc_def by (induction rows) (simp_all add: sorted_insert_desc)

text \<open>A joined row with NULL send columns is an article the subscriber has no send row for.\<close>

lemma left_join_None:
  "(a, None) \<in> set (left_join_sends db sid) \<longleftrightarrow>
     a \<in> set (articles db) \<and> \<not> has_send_record db sid (a_id a)"
proof -
  have none_iff: "\<And>b. (a, None) \<in> set (case filter (\<lambda>s. a_id b = s_article_id s \<and> s_subscriber_id s = sid)
                (article_sends db) of [] \<Rightarrow> [(b, None)] | ms \<Rightarrow> map (\<lambda>s. (b, Some s)) ms)
        \<longleftrightarrow> a = b \<and> filter (\<lambda>s. a_id b = s_article_id s \<and> s_subscriber_id s = sid) (article_sends db) = []"
    by (auto split: list.splits)
  have "has_send_record db sid (a_id a) \<longleftrightarrow>
        filter (\<lambda>s. a_id a = s_article_id s \<and> s_subscriber_id s = sid) (article_sends db) \<noteq> []"
    unfolding has_send_record_def list_ex_iff filter_empty_conv by metis
  then show ?thesis
    unfolding left_join_sends_def by (auto simp: none_iff)
qed

lemma fresh_rows_sound:
  assumes "d \<in> set (fresh_rows db sid T)"
  shows "\<exists>a\<in>set (articles db). d = row_dict (a, None) \<and> a_issue_area a = T \<and>
           \<not> a_excluded a \<and> \<not> has_send_record db sid (a_id a)"
proof -
  from assms obtain r where r: "d = row_dict r"
      and rin: "r \<in> set (filter (\<lambda>r. a_issue_area (fst r) = T \<and> \<not> a_excluded (fst r) \<and>
                           (case snd r of None \<Rightarrow> True | Some s \<Rightarrow> False))
                (left_join_sends db sid))"
    unfolding fresh_rows_def using set_order_by by (auto dest!: in_set_takeD)
  then obtain a where "r = (a, None)"
    by (cases r) (auto split: option.splits)
  with r rin show ?thesis by (auto simp: left_join_None)
qed

lemma fresh_rows_length: "length (fresh_rows db sid T) \<le> 10"
  by (simp add: fresh_rows_def)

lemma fresh_rows_sorted:
  "sorted_wrt (\<lambda>x y. data_scraped_at y \<le> data_scraped_at x) (fresh_rows db sid T)"
proof -
  have "sorted_wrt (\<lambda>x y. a_scraped_at (fst y) \<le> a_scraped_at (fst x))
          (take 10 (order_by_scraped_at_desc
             (filter (\<lambda>r. a_issue_area (fst r) = T \<and> \<not> a_excluded (fst r) \<and>
                           (case snd r of None \<Rightarrow> True | Some s \<Rightarrow> False))
                (left_join_sends db sid))))"
    by (rule sorted_wrt_take) (rule sorted_order_by)
  then show ?thesis
    by (simp add: fresh_rows_def sorted_wrt_map row_dict_def)
qed

section \<open>The selection loop\<close>

lemma slice_to_nonneg: "0 \<le> n \<Longrightarrow> slice_to xs n = take (nat n) xs"
  by (simp add: slice_to_def)

lemma set_slice_to: "set (slice_to xs n) \<subseteq> set xs"
  by (auto simp: slice_to_def dest: in_set_takeD)

lemma take_append_take:
  "take n (xs @ take (n - length xs) ys @ zs) = take n (xs @ ys @ zs)"
  by (cases "length ys \<le> n - length xs") (auto simp: min_def)

text \<open>With a count that is not negative, the fallback loop fills up to the count.\<close>

lemma fallback_loop_take:
  "0 \<le> n \<Longrightarrow> int (length sel) \<le> n \<Longrightarrow>
   fallback_loop abc n fcs sel =
     take (nat n) (sel @ concat (map (\<lambda>c. map from_dict (get_or_empty abc c)) fcs))"
proof (induction fcs arbitrary: sel)
  case Nil
  then show ?case by simp
next
  case (Cons c fcs)
  show ?case
  proof (cases "int (length sel) \<ge> n")
    case True
    with Cons.prems show ?thesis by simp
  next
    case False
    let ?fa = "map from_dict (get_or_empty abc c)"
    let ?r = "nat n - length sel"
    from False Cons.prems have r: "nat (n - int (length sel)) = ?r" by simp
    have len: "int (length (sel @ take ?r ?fa)) \<le> n" using False Cons.prems by simp
    have "fallback_loop abc n (c # fcs) sel = fallback_loop abc n fcs (sel @ take ?r ?fa)"
      using False Cons.prems r by (simp add: Let_def slice_to_nonneg take_map)
    also have "\<dots> = take (nat n) ((sel @ take ?r ?fa) @
                      concat (map (\<lambda>c. map from_dict (get_or_empty abc c)) fcs))"
      by (rule Cons.IH[OF Cons.prems(1) len])
    also have "\<dots> = take (nat n) (sel @ ?fa @
                      concat (map (\<lambda>c. map from_dict (get_or_empty abc c)) fcs))"
      using take_append_take[of "nat n" sel ?fa] by simp
    finally show ?thesis by simp
  qed
qed

lemma get_articles_with_fallback_take:
  assumes "0 \<le> n"
  shows "get_articles_with_fallback db sid T n = take (nat n) (fresh_then_fallbacks db sid T)"
proof -
  let ?fb = "get_fallback_categories T 3"
  let ?abc = "get_fresh_articles_for_subscriber db sid (get_all_related_categories T)"
  let ?P = "map from_dict (fresh_rows db sid T)"
  let ?R = "concat (map (\<lambda>c. map from_dict (fresh_rows db sid c)) ?fb)"
  have prim: "get_or_empty ?abc T = fresh_rows db sid T"
    by (simp add: get_or_empty_fresh get_all_related_categories_def)
  have meq: "map (\<lambda>c. map from_dict (get_or_empty ?abc c)) ?fb =
        map (\<lambda>c. map from_dict (fresh_rows db sid c)) ?fb"
    by (rule map_cong) (simp_all add: get_or_empty_fresh get_all_related_categories_def)
  have rest: "concat (map (\<lambda>c. map from_dict (get_or_empty ?abc c)) ?fb) = ?R"
    by (simp only: meq)
  have sel: "map from_dict (slice_to (fresh_rows db sid T) n) = take (nat n) ?P"
    using assms by (simp add: slice_to_nonneg take_map)
  have unf: "get_articles_with_fallback db sid T n =
      (if int (length (take (nat n) ?P)) < n
       then fallback_loop ?abc n ?fb (take (nat n) ?P) else take (nat n) ?P)"
    unfolding get_articles_with_fallback_def Let_def prim sel by (rule refl)
  show ?thesis
  proof (cases "int (length (take (nat n) ?P)) < n")
    case True
    have le: "int (length (take (nat n) ?P)) \<le> n" using assms by simp
    have "get_articles_with_fallback db sid T n = fallback_loop ?abc n ?fb (take (nat n) ?P)"
      using True by (simp only: unf if_True)
    also have "\<dots> = take (nat n) (take (nat n) ?P @ ?R)"
      using fallback_loop_take[OF assms le, of ?abc ?fb] rest by simp
    also have "\<dots> = take (nat n) (?P @ ?R)"
      using take_append_take[of "nat n" "[]" ?P ?R] by simp
    finally show ?thesis by (simp add: fresh_then_fallbacks_def)
  next
    case False
    then have "nat n \<le> length ?P" using assms by simp
    then have "take (nat n) (?P @ ?R) = take (nat n) ?P" by simp
    moreover have "get_articles_with_fallback db sid T n = take (nat n) ?P"
      using False by (simp only: unf if_False)
    ultimately show ?thesis by (simp add: fresh_then_fallbacks_def)
  qed
qed

lemma foldl_select_step_fst:
  "fst (foldl (select_step db sid n) st areas) T =
     (if T \<in> set areas then Some (get_articles_with_fallback db sid T n) else fst st T)"
  by (induction areas arbitrary: st) (auto simp: select_step_def Let_def)

lemma foldl_select_step_snd:
  "snd (foldl (select_step db sid n) st areas) T =
     (if T \<in> set areas \<and> fallback_noted T (get_articles_with_fallback db sid T n)
      then Some True else snd st T)"
  by (induction areas arbitrary: st) (auto simp: select_step_def Let_def fallback_noted_def)

lemma select_result:
  "fst (select_articles_for_subscriber self db sub n) T =
     (if T \<in> set (issue_areas sub)
      then Some (get_articles_with_fallback db (Subscriber_id sub) T n) else None)"
  by (simp add: select_articles_for_subscriber_def Let_def foldl_select_step_fst)

lemma select_fallback_usage:
  "was_fallback_used (snd (select_articles_for_subscriber self db sub n)) T =
     (T \<in> set (issue_areas sub) \<and>
      fallback_noted T (get_articles_with_fallback db (Subscriber_id sub) T n))"
  by (simp add: select_articles_for_subscriber_def Let_def was_fallback_used_def
        foldl_select_step_snd)

lemma filter_shorter_iff:
  "length (filter P xs) < length xs \<longleftrightarrow> (\<exists>x\<in>set xs. \<not> P x)"
  by (induction xs) (auto simp: less_Suc_eq_le)

section \<open>Fallback order and partial fulfilment\<close>

text \<open>
  Claim C3. For a topic \<open>T\<close> of the subscriber and a requested count \<open>n\<close> (a count:
  not negative), the list the selection returns for \<open>T\<close> is the first \<open>n\<close> elements
  of \<open>T\<close>'s own fresh list followed by the fresh lists of \<open>T\<close>'s fallback topics in
  their listed order; when these lists together hold no more than \<open>n\<close> articles, all
  of them are returned.
\<close>

theorem select_takes_fresh_then_fallbacks:
  assumes "0 \<le> n" and "T \<in> set (issue_areas subscriber)"
  shows "fst (select_articles_for_subscriber self db subscriber n) T =
           Some (take (nat n) (fresh_then_fallbacks db (Subscriber_id subscriber) T)) \<and>
         (int (length (fresh_then_fallbacks db (Subscriber_id subscriber) T)) \<le> n \<longrightarrow>
          fst (select_articles_for_subscriber self db subscriber n) T =
            Some (fresh_then_fallbacks db (Subscriber_id subscriber) T))"
  using assms by (simp add: select_result get_articles_with_fallback_take)

theorem select_takes_fresh_then_fallbacks_witness:
  "(0::int) \<le> 3 \<and> ''Housing'' \<in> set (issue_areas scenario_subscriber) \<and>
   map Article_id (fresh_then_fallbacks scenario_db 1 ''Housing'') = [Some 5, Some 4] \<and>
   fst (select_articles_for_subscriber ArticleSelector_init scenario_db scenario_subscriber 3)
       ''Housing'' =
     Some (fresh_then_fallbacks scenario_db (Subscriber_id scenario_subscriber) ''Housing'')"
proof -
  have h1: "(0::int) \<le> 3" by simp
  have h2: "''Housing'' \<in> set (issue_areas scenario_subscriber)" by code_simp
  have e: "map Article_id (fresh_then_fallbacks scenario_db 1 ''Housing'') = [Some 5, Some 4]"
    by code_simp
  have sid: "Subscriber_id scenario_subscriber = 1" by code_simp
  from e have "length (fresh_then_fallbacks scenario_db 1 ''Housing'') = 2"
    using length_map[of Article_id "fresh_then_fallbacks scenario_db 1 ''Housing''"] by simp
  then have l: "int (length (fresh_then_fallbacks scenario_db (Subscriber_id scenario_subscriber)
                  ''Housing'')) \<le> 3"
    by (simp add: sid)
  show ?thesis
    using h1 h2 e l
      select_takes_fresh_then_fallbacks[OF h1 h2, of ArticleSelector_init scenario_db]
    by blast
qed

section \<open>The fallback flag\<close>

text \<open>
  Claim C4. After a selection, \<^verbatim>\<open>was_fallback_used(T)\<close> for a topic \<open>T\<close> of the
  subscriber is true exactly when the list selected for \<open>T\<close> holds an article whose own
  topic is not \<open>T\<close>, or is empty.
\<close>

theorem was_fallback_used_iff:
  assumes "T \<in> set (issue_areas subscriber)"
  shows "was_fallback_used (snd (select_articles_for_subscriber self db subscriber n)) T \<longleftrightarrow>
           (\<exists>a\<in>set (get_or_empty (fst (select_articles_for_subscriber self db subscriber n)) T).
              issue_area a \<noteq> T) \<or>
           get_or_empty (fst (select_articles_for_subscriber self db subscriber n)) T = []"
  using assms
  by (auto simp: select_fallback_usage select_result get_or_empty_def fallback_noted_def
        filter_shorter_iff)

theorem was_fallback_used_iff_witness:
  "''Housing'' \<in> set (issue_areas scenario_subscriber) \<and>
   was_fallback_used
     (snd (select_articles_for_subscriber ArticleSelector_init scenario_db scenario_subscriber 1))
     ''Housing'' \<and>
   ((\<exists>a\<in>set (get_or_empty
        (fst (select_articles_for_subscriber ArticleSelector_init scenario_db
                scenario_subscriber 1)) ''Housing'').
       issue_area a \<noteq> ''Housing'') \<or>
    get_or_empty
      (fst (select_articles_for_subscriber ArticleSelector_init scenario_db
              scenario_subscriber 1)) ''Housing'' = [])"
proof -
  have h: "''Housing'' \<in> set (issue_areas scenario_subscriber)" by code_simp
  have e: "was_fallback_used
     (snd (select_articles_for_subscriber ArticleSelector_init scenario_db scenario_subscriber 1))
     ''Housing''"
    by code_simp
  show ?thesis
    using h e was_fallback_used_iff[OF h, of ArticleSelector_init scenario_db 1]
    by blast
qed


section \<open>What a selection can contain\<close>

lemma fallback_loop_subset:
  "set (fallback_loop abc n fcs sel) \<subseteq>
     set sel \<union> (\<Union>c\<in>set fcs. from_dict ` set (get_or_empty abc c))"
proof (induction fcs arbitrary: sel)
  case Nil
  then show ?case by simp
next
  case (Cons c fcs)
  show ?case
  proof (cases "int (length sel) \<ge> n")
    case True
    then show ?thesis by simp
  next
    case False
    let ?sel = "sel @ map from_dict (slice_to (get_or_empty abc c) (n - int (length sel)))"
    have eq: "fallback_loop abc n (c # fcs) sel = fallback_loop abc n fcs ?sel"
      using False by (simp add: Let_def)
    have un: "(\<Union>x\<in>set (c # fcs). from_dict ` set (get_or_empty abc x)) =
        from_dict ` set (get_or_empty abc c) \<union>
        (\<Union>x\<in>set fcs. from_dict ` set (get_or_empty abc x))"
      by simp
    have ih: "set (fallback_loop abc n fcs ?sel) \<subseteq>
        set ?sel \<union> (\<Union>c\<in>set fcs. from_dict ` set (get_or_empty abc c))"
      by (rule Cons.IH)
    have new: "set ?sel \<subseteq> set sel \<union> from_dict ` set (get_or_empty abc c)"
      using set_slice_to[of "get_or_empty abc c" "n - int (length sel)"] by auto
    show ?thesis unfolding eq un using ih new by blast
  qed
qed

lemma selected_from_fresh:
  assumes "a \<in> set (get_articles_with_fallback db sid T n)"
  shows "\<exists>c. a \<in> from_dict ` set (fresh_rows db sid c)"
proof -
  let ?abc = "get_fresh_articles_for_subscriber db sid (get_all_related_categories T)"
  let ?sel = "map from_dict (slice_to (get_or_empty ?abc T) n)"
  have pool: "\<And>c. set (get_or_empty ?abc c) \<subseteq> set (fresh_rows db sid c)"
    by (auto simp: get_or_empty_fresh)
  have sel: "set ?sel \<subseteq> from_dict ` set (fresh_rows db sid T)"
    using set_slice_to[of "get_or_empty ?abc T" n] pool[of T] by auto
  have "set (get_articles_with_fallback db sid T n) \<subseteq>
          set ?sel \<union> (\<Union>c\<in>set (get_fallback_categories T 3).
                          from_dict ` set (get_or_empty ?abc c))"
    using fallback_loop_subset[of ?abc n "get_fallback_categories T 3" ?sel]
    by (auto simp: get_articles_with_fallback_def Let_def)
  with assms sel pool show ?thesis by blast
qed

lemma selected_is_fresh_article:
  assumes "a \<in> set (get_articles_with_fallback db sid T n)"
  shows "\<exists>row\<in>set (articles db). Article_id a = Some (a_id row) \<and> \<not> a_excluded row \<and>
           \<not> has_send_record db sid (a_id row)"
proof -
  from selected_from_fresh[OF assms] obtain c d
    where d: "d \<in> set (fresh_rows db sid c)" and a: "a = from_dict d" by auto
  from fresh_rows_sound[OF d] obtain row
    where "row \<in> set (articles db)" "d = row_dict (row, None)" "\<not> a_excluded row"
      "\<not> has_send_record db sid (a_id row)" by auto
  with a show ?thesis by (auto simp: from_dict_def row_dict_def)
qed

lemma in_selected_of:
  assumes "a \<in> set (selected_of (fst (select_articles_for_subscriber self db sub n)) sub)"
  shows "\<exists>T. a \<in> set (get_articles_with_fallback db (Subscriber_id sub) T n)"
  using assms
  by (auto simp: selected_of_def select_result get_or_empty_def split: if_splits)

section \<open>The fresh query\<close>

text \<open>
  Claim C5. For a requested topic the fresh query returns a list (empty when nothing
  matches) of at most 10 rows, newest first, each an article of the topic that is not
  excluded and has no send row for the subscriber; so every article of a selection is
  a stored article that is not excluded, and under the primary key of the articles
  table an excluded article is in no selected list.
\<close>

theorem fresh_query_contract:
  "(T \<in> set areas \<longrightarrow>
      (\<exists>rows. get_fresh_articles_for_subscriber db sid areas T = Some rows \<and>
         length rows \<le> 10 \<and>
         sorted_wrt (\<lambda>x y. data_scraped_at y \<le> data_scraped_at x) rows \<and>
         (\<forall>d\<in>set rows. \<exists>a\<in>set (articles db).
            d = row_dict (a, None) \<and> a_issue_area a = T \<and> \<not> a_excluded a \<and>
            \<not> has_send_record db sid (a_id a)) \<and>
         (\<not> list_ex (\<lambda>a. a_issue_area a = T \<and> \<not> a_excluded a \<and>
                          \<not> has_send_record db sid (a_id a)) (articles db) \<longrightarrow>
          rows = []))) \<and>
   (\<forall>a\<in>set (get_or_empty (fst (select_articles_for_subscriber self db subscriber n)) T').
      \<exists>row\<in>set (articles db). Article_id a = Some (a_id row) \<and> \<not> a_excluded row) \<and>
   (distinct (map a_id (articles db)) \<longrightarrow>
      (\<forall>row\<in>set (articles db). a_excluded row \<longrightarrow>
         Some (a_id row) \<notin>
           ids_of (get_or_empty (fst (select_articles_for_subscriber self db subscriber n)) T')))"
proof (intro conjI impI)
  assume T: "T \<in> set areas"
  let ?rows = "fresh_rows db sid T"
  have sound: "\<forall>d\<in>set ?rows. \<exists>a\<in>set (articles db).
            d = row_dict (a, None) \<and> a_issue_area a = T \<and> \<not> a_excluded a \<and>
            \<not> has_send_record db sid (a_id a)"
    using fresh_rows_sound by blast
  have "\<not> list_ex (\<lambda>a. a_issue_area a = T \<and> \<not> a_excluded a \<and>
                          \<not> has_send_record db sid (a_id a)) (articles db) \<longrightarrow> ?rows = []"
  proof
    assume none: "\<not> list_ex (\<lambda>a. a_issue_area a = T \<and> \<not> a_excluded a \<and>
                          \<not> has_send_record db sid (a_id a)) (articles db)"
    show "?rows = []"
    proof (cases ?rows)
      case Nil
      then show ?thesis .
    next
      case (Cons d ds)
      then have "d \<in> set ?rows" by simp
      from fresh_rows_sound[OF this] none show ?thesis by (auto simp: list_ex_iff)
    qed
  qed
  with sound T show "\<exists>rows. get_fresh_articles_for_subscriber db sid areas T = Some rows \<and>
         length rows \<le> 10 \<and>
         sorted_wrt (\<lambda>x y. data_scraped_at y \<le> data_scraped_at x) rows \<and>
         (\<forall>d\<in>set rows. \<exists>a\<in>set (articles db).
            d = row_dict (a, None) \<and> a_issue_area a = T \<and> \<not> a_excluded a \<and>
            \<not> has_send_record db sid (a_id a)) \<and>
         (\<not> list_ex (\<lambda>a. a_issue_area a = T \<and> \<not> a_excluded a \<and>
                          \<not> has_send_record db sid (a_id a)) (articles db) \<longrightarrow>
          rows = [])"
    using fresh_rows_length[of db sid T] fresh_rows_sorted[of db sid T]
    by (simp add: get_fresh_lookup)
next
  let ?sel = "get_or_empty (fst (select_articles_for_subscriber self db subscriber n)) T'"
  have stored: "\<And>a. a \<in> set ?sel \<Longrightarrow>
      \<exists>row\<in>set (articles db). Article_id a = Some (a_id row) \<and> \<not> a_excluded row"
    using selected_is_fresh_article[of _ db "Subscriber_id subscriber" T' n]
    by (auto simp: select_result get_or_empty_def split: if_splits)
  then show "\<forall>a\<in>set ?sel. \<exists>row\<in>set (articles db).
      Article_id a = Some (a_id row) \<and> \<not> a_excluded row"
    by blast
  assume pk: "distinct (map a_id (articles db))"
  show "\<forall>row\<in>set (articles db). a_excluded row \<longrightarrow> Some (a_id row) \<notin> ids_of ?sel"
  proof (intro ballI impI notI)
    fix row
    assume row: "row \<in> set (articles db)" and ex: "a_excluded row"
      and "Some (a_id row) \<in> ids_of ?sel"
    then obtain a where "a \<in> set ?sel" "Article_id a = Some (a_id row)"
      by (auto simp: ids_of_def)
    with stored obtain row' where row': "row' \<in> set (articles db)" "a_id row' = a_id row"
      "\<not> a_excluded row'"
      by fastforce
    from pk row row'(1,2) have "row' = row"
      by (meson distinct_map inj_onD)
    with ex row'(3) show False by simp
  qed
qed

theorem fresh_query_contract_witness:
  "''Housing'' \<in> set [''Housing'', ''Economic Development''] \<and>
   get_fresh_articles_for_subscriber scenario_db 1 [''Housing'', ''Economic Development'']
     ''Housing'' = Some [] \<and>
   distinct (map a_id (articles scenario_db)) \<and>
   mk_article 7 ''X1'' ''Housing'' 40 True \<in> set (articles scenario_db) \<and>
   a_excluded (mk_article 7 ''X1'' ''Housing'' 40 True) \<and>
   Some (a_id (mk_article 7 ''X1'' ''Housing'' 40 True)) \<notin>
     ids_of (get_or_empty
       (fst (select_articles_for_subscriber ArticleSelector_init scenario_db
               scenario_subscriber 1)) ''Housing'')"
proof -
  have h1: "''Housing'' \<in> set [''Housing'', ''Economic Development'']" by simp
  have e1: "get_fresh_articles_for_subscriber scenario_db 1
              [''Housing'', ''Economic Development''] ''Housing'' = Some []"
    by code_simp
  have h2: "distinct (map a_id (articles scenario_db))" by code_simp
  have h3: "mk_article 7 ''X1'' ''Housing'' 40 True \<in> set (articles scenario_db)"
    by (simp add: scenario_db_def)
  have h4: "a_excluded (mk_article 7 ''X1'' ''Housing'' 40 True)"
    by (simp add: mk_article_def)
  show ?thesis
    using h1 e1 h2 h3 h4
      fresh_query_contract[of "''Housing''" "[''Housing'', ''Economic Development'']"
        scenario_db 1 ArticleSelector_init scenario_subscriber 1 "''Housing''"]
    by blast
qed


section \<open>The send ledger\<close>

lemma record_article_send_has:
  "has_send_record (record_article_send db sid aid cid) sid aid"
  by (auto simp: record_article_send_def has_send_record_def Let_def list_ex_iff)

lemma record_article_send_keeps:
  "has_send_record db s a \<Longrightarrow> has_send_record (record_article_send db sid aid cid) s a"
  by (auto simp: record_article_send_def has_send_record_def Let_def list_ex_iff)

lemma record_article_send_articles:
  "articles (record_article_send db sid aid cid) = articles db"
  by (simp add: record_article_send_def Let_def)

lemma record_each_keeps:
  "has_send_record db s a \<Longrightarrow> has_send_record (record_each db sid as cid) s a"
  unfolding record_each_def
  by (induction as arbitrary: db) (auto simp: record_article_send_keeps split: option.splits)

lemma record_each_has:
  "a \<in> set as \<Longrightarrow> Article_id a = Some i \<Longrightarrow>
   has_send_record (record_each db sid as cid) sid i"
proof (induction as arbitrary: db)
  case Nil
  then show ?case by simp
next
  case (Cons x xs)
  let ?db = "case Article_id x of Some j \<Rightarrow> record_article_send db sid j cid | None \<Rightarrow> db"
  have step: "record_each db sid (x # xs) cid = record_each ?db sid xs cid"
    by (simp add: record_each_def)
  show ?case
  proof (cases "a = x")
    case True
    with Cons.prems have "has_send_record ?db sid i"
      by (simp add: record_article_send_has)
    then show ?thesis unfolding step by (rule record_each_keeps)
  next
    case False
    with Cons.prems have "a \<in> set xs" by simp
    from Cons.IH[OF this Cons.prems(2)] show ?thesis unfolding step .
  qed
qed

lemma record_each_articles: "articles (record_each db sid as cid) = articles db"
  unfolding record_each_def
  by (induction as arbitrary: db) (auto simp: record_article_send_articles split: option.splits)

section \<open>No article twice\<close>

text \<open>
  Claim C1. When a selection is made for a subscriber, every article it returned is
  recorded, and a selection is made again for the same subscriber on the same article
  pool, the second selection holds none of the articles of the first.
\<close>

theorem no_repeat_after_record:
  "ids_of (selected_of (fst (select_articles_for_subscriber self db subscriber n)) subscriber) \<inter>
   ids_of (selected_of
     (fst (select_articles_for_subscriber
        (snd (select_articles_for_subscriber self db subscriber n))
        (record_each db (Subscriber_id subscriber)
           (selected_of (fst (select_articles_for_subscriber self db subscriber n)) subscriber)
           campaign_id)
        subscriber m)) subscriber) = {} \<and>
   articles (record_each db (Subscriber_id subscriber)
      (selected_of (fst (select_articles_for_subscriber self db subscriber n)) subscriber)
      campaign_id) = articles db"
proof
  let ?sid = "Subscriber_id subscriber"
  let ?first = "selected_of (fst (select_articles_for_subscriber self db subscriber n)) subscriber"
  let ?db = "record_each db ?sid ?first campaign_id"
  let ?second = "selected_of
     (fst (select_articles_for_subscriber
        (snd (select_articles_for_subscriber self db subscriber n)) ?db subscriber m)) subscriber"
  show "ids_of ?first \<inter> ids_of ?second = {}"
  proof (rule ccontr)
    assume "ids_of ?first \<inter> ids_of ?second \<noteq> {}"
    then obtain a b where a: "a \<in> set ?first" and b: "b \<in> set ?second"
      and same: "Article_id a = Article_id b"
      by (auto simp: ids_of_def)
    from in_selected_of[OF b] obtain T
      where "b \<in> set (get_articles_with_fallback ?db ?sid T m)" ..
    from selected_is_fresh_article[OF this] obtain row :: article_row
      where row: "Article_id b = Some (a_id row)" "\<not> has_send_record ?db ?sid (a_id row)"
      by meson
    from a same row(1) have "has_send_record ?db ?sid (a_id row)"
      by (simp add: record_each_has)
    with row(2) show False ..
  qed
  show "articles ?db = articles db" by (rule record_each_articles)
qed

theorem no_repeat_after_record_witness:
  "map Article_id
     (selected_of (fst (select_articles_for_subscriber ArticleSelector_init scenario_db
                          scenario_subscriber 1)) scenario_subscriber) =
     [Some 3, Some 5, Some 6] \<and>
   map Article_id
     (selected_of
       (fst (select_articles_for_subscriber
          (snd (select_articles_for_subscriber ArticleSelector_init scenario_db
                  scenario_subscriber 1))
          (record_each scenario_db (Subscriber_id scenario_subscriber)
             (selected_of (fst (select_articles_for_subscriber ArticleSelector_init scenario_db
                                  scenario_subscriber 1)) scenario_subscriber) 2)
          scenario_subscriber 1)) scenario_subscriber) =
     [Some 2, Some 4] \<and>
   ids_of (selected_of (fst (select_articles_for_subscriber ArticleSelector_init scenario_db
                          scenario_subscriber 1)) scenario_subscriber) \<inter>
   ids_of (selected_of
       (fst (select_articles_for_subscriber
          (snd (select_articles_for_subscriber ArticleSelector_init scenario_db
                  scenario_subscriber 1))
          (record_each scenario_db (Subscriber_id scenario_subscriber)
             (selected_of (fst (select_articles_for_subscriber ArticleSelector_init scenario_db
                                  scenario_subscriber 1)) scenario_subscriber) 2)
          scenario_subscriber 1)) scenario_subscriber) = {}"
proof -
  have e1: "map Article_id
     (selected_of (fst (select_articles_for_subscriber ArticleSelector_init scenario_db
                          scenario_subscriber 1)) scenario_subscriber) =
     [Some 3, Some 5, Some 6]"
    by code_simp
  have e2: "map Article_id
     (selected_of
       (fst (select_articles_for_subscriber
          (snd (select_articles_for_subscriber ArticleSelector_init scenario_db
                  scenario_subscriber 1))
          (record_each scenario_db (Subscriber_id scenario_subscriber)
             (selected_of (fst (select_articles_for_subscriber ArticleSelector_init scenario_db
                                  scenario_subscriber 1)) scenario_subscriber) 2)
          scenario_subscriber 1)) scenario_subscriber) =
     [Some 2, Some 4]"
    by code_simp
  show ?thesis
    using e1 e2
      no_repeat_after_record[of ArticleSelector_init scenario_db scenario_subscriber 1 2 1]
    by blast
qed

section \<open>Idempotent insertion of articles\<close>








section \<open>Recording a send twice\<close>









section \<open>Ids the store does not know\<close>




section \<open>Determinism\<close>

lemma fresh_rows_store:
  assumes "articles db1 = articles db2" and "article_sends db1 = article_sends db2"
  shows "fresh_rows db1 sid T = fresh_rows db2 sid T"
  using assms by (simp add: fresh_rows_def left_join_sends_def)

lemma get_articles_with_fallback_store:
  assumes "articles db1 = articles db2" and "article_sends db1 = article_sends db2"
  shows "get_articles_with_fallback db1 sid T n = get_articles_with_fallback db2 sid T n"
proof -
  have "\<And>cats. get_fresh_articles_for_subscriber db1 sid cats =
               get_fresh_articles_for_subscriber db2 sid cats"
    by (rule ext) (simp add: get_fresh_lookup fresh_rows_store[OF assms])
  then show ?thesis by (simp add: get_articles_with_fallback_def)
qed

lemma select_step_store:
  assumes "articles db1 = articles db2" and "article_sends db1 = article_sends db2"
  shows "select_step db1 sid n = select_step db2 sid n"
  by (intro ext) (simp add: select_step_def get_articles_with_fallback_store[OF assms])

text \<open>
  Claim C9. The selection is a function of the store and the subscriber: two runs on
  stores with the same articles and the same send rows return the same lists and the
  same fallback flags, whatever the selector recorded before and whatever the settings.
  Rows with equal \<^verbatim>\<open>scraped_at\<close> are taken in rowid order, the order the engine
  gives them in.
\<close>

theorem selection_deterministic:
  assumes "articles db1 = articles db2" and "article_sends db1 = article_sends db2"
  shows "fst (select_articles_for_subscriber self1 db1 subscriber n) =
           fst (select_articles_for_subscriber self2 db2 subscriber n) \<and>
         last_fallback_usage (snd (select_articles_for_subscriber self1 db1 subscriber n)) =
           last_fallback_usage (snd (select_articles_for_subscriber self2 db2 subscriber n))"
  by (simp add: select_articles_for_subscriber_def Let_def select_step_store[OF assms])

theorem selection_deterministic_witness:
  "articles scenario_db = articles fallback_off_db \<and>
   article_sends scenario_db = article_sends fallback_off_db \<and>
   fst (select_articles_for_subscriber ArticleSelector_init scenario_db scenario_subscriber 1) =
     fst (select_articles_for_subscriber
            (snd (select_articles_for_subscriber ArticleSelector_init scenario_db
                    scenario_subscriber 2))
            fallback_off_db scenario_subscriber 1)"
proof -
  have h1: "articles scenario_db = articles fallback_off_db"
    by (simp add: fallback_off_db_def set_setting_def)
  have h2: "article_sends scenario_db = article_sends fallback_off_db"
    by (simp add: fallback_off_db_def set_setting_def)
  show ?thesis
    using h1 h2 selection_deterministic[OF h1 h2, of ArticleSelector_init scenario_subscriber 1
        "snd (select_articles_for_subscriber ArticleSelector_init scenario_db
                scenario_subscriber 2)"]
    by blast
qed

section \<open>One article under two topics\<close>

text \<open>
  Claim C10. The topics of a subscriber are served one by one from the same fresh
  articles: for a subscriber of Health and Mental Health, with no Health article and
  one Mental Health article in the store, that article is selected for Health, as a
  fallback, and for Mental Health.
\<close>

theorem same_article_for_two_topics:
  "fst (select_articles_for_subscriber ArticleSelector_init overlap_db overlap_subscriber 1)
     ''Health'' =
   fst (select_articles_for_subscriber ArticleSelector_init overlap_db overlap_subscriber 1)
     ''Mental Health'' \<and>
   map Article_id
     (get_or_empty
        (fst (select_articles_for_subscriber ArticleSelector_init overlap_db
                overlap_subscriber 1)) ''Health'') = [Some 1] \<and>
   map issue_area
     (get_or_empty
        (fst (select_articles_for_subscriber ArticleSelector_init overlap_db
                overlap_subscriber 1)) ''Health'') = [''Mental Health''] \<and>
   fresh_rows overlap_db 1 ''Health'' = []"
  by code_simp

section \<open>The fallback setting\<close>

text \<open>
  Claim C2 says that with the setting \<^verbatim>\<open>fallback_enabled\<close> off, a topic without fresh
  articles of its own gets an empty list. The selection never reads the setting: in the
  scenario's store with the setting at \<^verbatim>\<open>0\<close>, Housing has no fresh article and
  is still served the newest Economic Development article.
\<close>

theorem fallback_setting_not_read:
  "get_setting fallback_off_db ''fallback_enabled'' (Some ''1'') = Some ''0'' \<and>
   fresh_rows fallback_off_db 1 ''Housing'' = [] \<and>
   map Article_id
     (get_or_empty
        (fst (select_articles_for_subscriber ArticleSelector_init fallback_off_db
                scenario_subscriber 1)) ''Housing'') = [Some 5] \<and>
   map issue_area
     (get_or_empty
        (fst (select_articles_for_subscriber ArticleSelector_init fallback_off_db
                scenario_subscriber 1)) ''Housing'') = [''Economic Development'']"
  by code_simp

end
